theory Spec2Isabelle
  imports Main "HOL-Library.List_Lexorder" "HOL-Library.Char_ord" "HOL-Library.Sublist"
begin

section \<open>The process state of \<open>icinga::Application\<close>\<close>

text \<open>
  The embedding follows \<^verbatim>\<open>base/application.cpp\<close> as the preprocessor leaves it when
  \<^verbatim>\<open>_WIN32\<close> is not defined. The static members of the class, the members of the one
  application object, the function-local static of \<^verbatim>\<open>GetExePath\<close> and what the code
  does to its collaborators (the logger, the components, the signal table) are the
  fields of one record that every operation takes and returns.
\<close>

text \<open>
  A \<^verbatim>\<open>Component::Ptr\<close> that is not null: the identity of the object it points to and
  the string its \<^verbatim>\<open>GetName()\<close> returns. Two objects may bear the same name.
\<close>

datatype component = Component (ident: nat) (GetName: string)

text \<open>
  Modelled from the spec: the lifecycle state of a component (class \<^verbatim>\<open>Component\<close> is not
  among the sources). A component is loaded, then started, then stopped.
\<close>

datatype lifecycle = Loaded | Started | Stopped

text \<open>The virtual calls the application makes on a component, in the order made.\<close>

datatype call = StartCall component | StopCall component | SetConfigCall component "nat option"

datatype severity = LogInformation | LogCritical

type_synonym log_entry = "severity \<times> string \<times> string"

text \<open>The disposition of a signal: \<^verbatim>\<open>SIG_DFL\<close>, \<^verbatim>\<open>SIG_IGN\<close>, or \<^verbatim>\<open>Application::SigIntHandler\<close>.\<close>

datatype disposition = SIG_DFL | SIG_IGN | SigIntHandlerInstalled

text \<open>
  \<^verbatim>\<open>m_Instance\<close> is a shared pointer (\<open>None\<close> when null) to the application object,
  which is named by a number; \<^verbatim>\<open>m_MainThreadID\<close> is a thread id, \<open>None\<close> for the
  default-constructed id that no running thread has. \<open>m_Components\<close> is the
  \<^verbatim>\<open>std::map\<close>, as the list of its entries in key order. \<open>result\<close> is the static local
  of \<^verbatim>\<open>GetExePath\<close>. \<open>world\<close> is the rest of the process (timers, queued events, what
  the entry point keeps), which the callbacks may read and change.
\<close>

record 'w process =
  m_Instance :: "nat option"
  m_ShuttingDown :: bool
  m_Debugging :: bool
  m_MainThreadID :: "nat option"
  m_Components :: "(string \<times> component) list"
  m_Arguments :: "string list"
  result :: string
  logged :: "log_entry list"
  calls :: "call list"
  component_state :: "component \<Rightarrow> lifecycle"
  component_config :: "component \<Rightarrow> nat option"
  sigint :: disposition
  sigpipe :: disposition
  world :: 'w

text \<open>The state the static initialisers and an empty application object give.\<close>

definition initial :: "'w \<Rightarrow> 'w process" where
  "initial w = \<lparr> m_Instance = None, m_ShuttingDown = False, m_Debugging = False,
     m_MainThreadID = None, m_Components = [], m_Arguments = [], result = [],
     logged = [], calls = [], component_state = (\<lambda>c. Loaded),
     component_config = (\<lambda>c. None), sigint = SIG_DFL, sigpipe = SIG_DFL, world = w \<rparr>"

subsection \<open>The map of components\<close>

text \<open>
  \<^verbatim>\<open>std::map<string, Component::Ptr>\<close> keeps one entry for each key, ordered by
  \<^verbatim>\<open>std::string\<close>'s \<open><\<close> (lexicographic on the bytes). \<open>map_find\<close> is \<^verbatim>\<open>find\<close>
  (\<open>None\<close> for \<^verbatim>\<open>end()\<close>), \<open>map_assign\<close> is \<^verbatim>\<open>m[k] = v\<close>, \<open>map_erase\<close> is \<^verbatim>\<open>erase\<close> of
  the entry that \<^verbatim>\<open>find\<close> returned.
\<close>

fun map_find :: "string \<Rightarrow> (string \<times> component) list \<Rightarrow> component option" where
  "map_find k [] = None"
| "map_find k ((k', v) # m) = (if k = k' then Some v else map_find k m)"

fun map_assign :: "string \<Rightarrow> component \<Rightarrow> (string \<times> component) list \<Rightarrow> (string \<times> component) list" where
  "map_assign k v [] = [(k, v)]"
| "map_assign k v ((k', v') # m) =
     (if k = k' then (k, v) # m
      else if k < k' then (k, v) # (k', v') # m
      else (k', v') # map_assign k v m)"

fun map_erase :: "string \<Rightarrow> (string \<times> component) list \<Rightarrow> (string \<times> component) list" where
  "map_erase k [] = []"
| "map_erase k ((k', v) # m) = (if k = k' then m else (k', v) # map_erase k m)"

text \<open>What \<^verbatim>\<open>std::map\<close> guarantees of its entries: keys strictly increasing.\<close>

definition map_ok :: "(string \<times> component) list \<Rightarrow> bool" where
  "map_ok m = sorted_wrt (<) (map fst m)"

subsection \<open>Collaborators\<close>

text \<open>\<^verbatim>\<open>Logger::Write(severity, facility, message)\<close>: the entry is appended to the log.\<close>

definition Logger_Write :: "severity \<Rightarrow> string \<Rightarrow> string \<Rightarrow> 'w process \<Rightarrow> 'w process" where
  "Logger_Write sev facility msg s = s\<lparr>logged := logged s @ [(sev, facility, msg)]\<rparr>"

text \<open>
  Modelled from the spec: \<^verbatim>\<open>Component::Start\<close> and \<^verbatim>\<open>Component::Stop\<close>, which are not
  among the sources. The call is recorded and the component becomes started, or stopped.
\<close>

definition Start :: "component \<Rightarrow> 'w process \<Rightarrow> 'w process" where
  "Start c s = s\<lparr>calls := calls s @ [StartCall c],
                 component_state := (component_state s)(c := Started)\<rparr>"

definition Stop :: "component \<Rightarrow> 'w process \<Rightarrow> 'w process" where
  "Stop c s = s\<lparr>calls := calls s @ [StopCall c],
                component_state := (component_state s)(c := Stopped)\<rparr>"

definition SetConfig :: "component \<Rightarrow> nat option \<Rightarrow> 'w process \<Rightarrow> 'w process" where
  "SetConfig c cfg s = s\<lparr>calls := calls s @ [SetConfigCall c cfg],
                         component_config := (component_config s)(c := cfg)\<rparr>"

section \<open>The operations\<close>

subsection \<open>\<^verbatim>\<open>GetInstance\<close> and \<^verbatim>\<open>Shutdown\<close>\<close>

definition GetInstance :: "'w process \<Rightarrow> nat option" where
  "GetInstance s = (if m_ShuttingDown s then None else m_Instance s)"

definition Shutdown :: "'w process \<Rightarrow> 'w process" where
  "Shutdown s = s\<lparr>m_ShuttingDown := True\<rparr>"

subsection \<open>The registry: \<^verbatim>\<open>RegisterComponent\<close>, \<^verbatim>\<open>UnregisterComponent\<close>, \<^verbatim>\<open>GetComponent\<close>\<close>

definition RegisterComponent :: "component \<Rightarrow> 'w process \<Rightarrow> 'w process" where
  "RegisterComponent c s =
     Start c (s\<lparr>m_Components := map_assign (GetName c) c (m_Components s)\<rparr>)"

definition UnregisterComponent :: "component \<Rightarrow> 'w process \<Rightarrow> 'w process" where
  "UnregisterComponent c s =
     (let name = GetName c;
          s1 = Logger_Write LogInformation ''base''
                 (''Unloading component '' @ [CHR 0x27] @ name @ [CHR 0x27]) s;
          s2 = (case map_find name (m_Components s1) of
                  None \<Rightarrow> s1
                | Some i \<Rightarrow> s1\<lparr>m_Components := map_erase name (m_Components s1)\<rparr>)
      in Stop c s2)"

definition GetComponent :: "string \<Rightarrow> 'w process \<Rightarrow> component option" where
  "GetComponent name s = map_find name (m_Components s)"

text \<open>
  The destructor: the flag is set, every component of the map is stopped in the
  order of the map, the map is cleared.
\<close>

definition destructor :: "'w process \<Rightarrow> 'w process" where
  "destructor s =
     (let s1 = s\<lparr>m_ShuttingDown := True\<rparr>;
          s2 = fold (\<lambda>i. Stop (snd i)) (m_Components s1) s1
      in s2\<lparr>m_Components := []\<rparr>)"

text \<open>A sequence of \<^verbatim>\<open>RegisterComponent\<close> calls, first to last.\<close>

definition register_all :: "component list \<Rightarrow> 'w process \<Rightarrow> 'w process" where
  "register_all cs s = fold RegisterComponent cs s"

text \<open>The calls made on components since an earlier state of the same run.\<close>

definition calls_since :: "'w process \<Rightarrow> 'w process \<Rightarrow> call list" where
  "calls_since s s' = drop (length (calls s)) (calls s')"

text \<open>
  The spec's words for what a lookup returns after a sequence of registrations: the
  most recently registered component bearing the name.
\<close>

definition most_recent :: "string \<Rightarrow> component list \<Rightarrow> component option" where
  "most_recent name cs = find (\<lambda>c. GetName c = name) (rev cs)"

subsection \<open>How a call ends\<close>

text \<open>
  A call returns a value, throws, or does not come back: a failed \<^verbatim>\<open>assert\<close> aborts the
  process, and reading \<^verbatim>\<open>m_Arguments[0]\<close> of an empty vector is undefined.
\<close>

datatype ('e, 'a) outcome = Returns 'a | Throws 'e | AssertionFailed | UndefinedBehaviour

text \<open>
  The exceptions the application itself throws: \<^verbatim>\<open>std::runtime_error(what)\<close> and
  \<^verbatim>\<open>PosixException(message, errno)\<close>.
\<close>

datatype exn = RuntimeError string | PosixException string int

subsection \<open>\<^verbatim>\<open>IsDebugging\<close>, \<^verbatim>\<open>IsMainThread\<close>\<close>

definition IsDebugging :: "'w process \<Rightarrow> bool" where
  "IsDebugging s = m_Debugging s"

text \<open>\<open>tid\<close> is \<^verbatim>\<open>boost::this_thread::get_id()\<close>, the thread that makes the call.\<close>

definition IsMainThread :: "nat \<Rightarrow> 'w process \<Rightarrow> bool" where
  "IsMainThread tid s = (Some tid = m_MainThreadID s)"

subsection \<open>\<^verbatim>\<open>LoadComponent\<close>\<close>

text \<open>
  The libltdl calls: \<^verbatim>\<open>lt_dlopen\<close> gives a handle or null, \<^verbatim>\<open>lt_dlerror\<close> the diagnostic
  of the last failure, \<^verbatim>\<open>lt_dlsym\<close> the address of a symbol or null. The factory found
  under the symbol is given as the component that calling it returns.
\<close>

record loader =
  lt_dlopen :: "string \<Rightarrow> nat option"
  lt_dlerror :: string
  lt_dlsym :: "nat \<Rightarrow> string \<Rightarrow> component option"

definition LoadComponent ::
  "loader \<Rightarrow> nat \<Rightarrow> string \<Rightarrow> nat option \<Rightarrow> 'w process \<Rightarrow> (exn, component) outcome \<times> 'w process" where
  "LoadComponent ld tid path componentConfig s =
     (if \<not> IsMainThread tid s then (AssertionFailed, s)
      else
        let s1 = Logger_Write LogInformation ''base''
                   (''Loading component '' @ [CHR 0x27] @ path @ [CHR 0x27]) s
        in case lt_dlopen ld path of
             None \<Rightarrow>
               (Throws (RuntimeError (''Could not load module '' @ [CHR 0x27] @ path @ [CHR 0x27]
                                       @ '': '' @ lt_dlerror ld)), s1)
           | Some hModule \<Rightarrow>
               (case lt_dlsym ld hModule ''CreateComponent'' of
                  None \<Rightarrow>
                    (Throws (RuntimeError
                       ''Loadable module does not contain CreateComponent function''), s1)
                | Some pCreateComponent \<Rightarrow>
                    let component = pCreateComponent;
                        s2 = SetConfig component componentConfig s1;
                        s3 = RegisterComponent component s2
                    in (Returns component, s3)))"

subsection \<open>\<^verbatim>\<open>GetExePath\<close>\<close>

text \<open>
  What the operating system answers: \<^verbatim>\<open>getcwd\<close> and \<^verbatim>\<open>realpath\<close> give a path or fail
  with an \<^verbatim>\<open>errno\<close> (\<open>Inl\<close>), \<^verbatim>\<open>getenv("PATH")\<close> gives the value or null, \<^verbatim>\<open>access\<close>
  tells whether a path may be executed (\<^verbatim>\<open>X_OK\<close>).
\<close>

record posix =
  getcwd :: "int + string"
  getenv_PATH :: "string option"
  access_X_OK :: "string \<Rightarrow> bool"
  realpath :: "string \<Rightarrow> int + string"

text \<open>
  \<^verbatim>\<open>boost::algorithm::split\<close> with \<^verbatim>\<open>is_any_of\<close> of one character and no token
  compression: every occurrence of the separator ends a token, empty tokens are kept.
\<close>

fun split :: "char \<Rightarrow> string \<Rightarrow> string list" where
  "split sep [] = [[]]"
| "split sep (c # cs) =
     (if c = sep then [] # split sep cs
      else case split sep cs of
             [] \<Rightarrow> [[c]]
           | token # tokens \<Rightarrow> (c # token) # tokens)"

text \<open>
  The loop over the directories of \<^verbatim>\<open>PATH\<close>: the first \<open>dir/argv0\<close> that may be
  executed, none when the loop ends with \<^verbatim>\<open>foundPath\<close> still false.
\<close>

definition search_paths :: "posix \<Rightarrow> string list \<Rightarrow> string \<Rightarrow> string option" where
  "search_paths os paths argv0 = find (access_X_OK os) (map (\<lambda>dir. dir @ ''/'' @ argv0) paths)"

text \<open>
  \<^verbatim>\<open>argv0[0] != '/'\<close> reads the terminating zero of an empty \<^verbatim>\<open>argv0\<close>, which is not a
  slash.
\<close>

definition GetExePath :: "posix \<Rightarrow> 'w process \<Rightarrow> (exn, string) outcome \<times> 'w process" where
  "GetExePath os s =
     (if result s \<noteq> [] then (Returns (result s), s)
      else case m_Arguments s of
        [] \<Rightarrow> (UndefinedBehaviour, s)
      | argv0 # rest \<Rightarrow>
          (case getcwd os of
             Inl errno \<Rightarrow> (Throws (PosixException ''getcwd failed'' errno), s)
           | Inr workingDirectory \<Rightarrow>
               let executablePath =
                     (if take 1 argv0 \<noteq> ''/'' then workingDirectory @ ''/'' @ argv0 else argv0);
                   found =
                     (if CHR ''/'' \<notin> set argv0 then
                        (case getenv_PATH os of
                           None \<Rightarrow> Inr executablePath
                         | Some pathEnv \<Rightarrow>
                             (case search_paths os (split CHR '':'' pathEnv) argv0 of
                                Some pathTest \<Rightarrow> Inr pathTest
                              | None \<Rightarrow>
                                  Inl (RuntimeError ''Could not determine executable path.'')))
                      else Inr executablePath)
               in case found of
                    Inl ex \<Rightarrow> (Throws ex, s)
                  | Inr executablePath \<Rightarrow>
                      (case realpath os executablePath of
                         Inl errno \<Rightarrow> (Throws (PosixException ''realpath failed'' errno), s)
                       | Inr buffer \<Rightarrow> (Returns buffer, s\<lparr>result := buffer\<rparr>))))"

text \<open>An absolute path begins with a slash.\<close>

definition absolute :: "string \<Rightarrow> bool" where
  "absolute p = (take 1 p = ''/'')"

text \<open>POSIX on \<^verbatim>\<open>realpath\<close>: the pathname it returns is absolute.\<close>

definition realpath_absolute :: "posix \<Rightarrow> bool" where
  "realpath_absolute os = (\<forall>p r. realpath os p = Inr r \<longrightarrow> absolute r)"

text \<open>
  What \<^verbatim>\<open>GetExePath\<close> does with the path it has chosen: \<^verbatim>\<open>realpath\<close>, whose failure is a
  \<^verbatim>\<open>PosixException\<close> and whose answer is returned and kept in the static \<open>result\<close>.
\<close>

definition canonicalized :: "posix \<Rightarrow> string \<Rightarrow> 'w process \<Rightarrow> (exn, string) outcome \<times> 'w process" where
  "canonicalized os p s =
     (case realpath os p of
        Inl errno \<Rightarrow> (Throws (PosixException ''realpath failed'' errno), s)
      | Inr r \<Rightarrow> (Returns r, s\<lparr>result := r\<rparr>))"

subsection \<open>\<^verbatim>\<open>RunEventLoop\<close>\<close>

text \<open>
  The collaborators of the loop, none of them among the sources:
  \<^verbatim>\<open>Object::ClearHeldObjects\<close>, \<^verbatim>\<open>Timer::ProcessTimers\<close> (which runs the due timers and
  returns the seconds to sleep), \<^verbatim>\<open>boost::get_system_time\<close> (in microseconds),
  \<^verbatim>\<open>Event::Wait\<close> (which returns the delivered events, named by numbers) and
  \<^verbatim>\<open>Event::OnEventDelivered\<close>. Timers and event callbacks are code of the application's
  user: they may change the whole state, the shutdown flag included.
\<close>

record 'w collaborators =
  ClearHeldObjects :: "'w process \<Rightarrow> 'w process"
  ProcessTimers :: "'w process \<Rightarrow> int \<times> 'w process"
  get_system_time :: "'w process \<Rightarrow> int"
  Wait :: "int \<Rightarrow> 'w process \<Rightarrow> nat list \<times> 'w process"
  OnEventDelivered :: "nat \<Rightarrow> 'w process \<Rightarrow> 'w process"

text \<open>What the loop does, in the order done; \<open>CheckShuttingDown\<close> is the test after the timers.\<close>

datatype loop_step =
    ClearHeldObjectsStep
  | ProcessTimersStep int
  | CheckShuttingDown bool
  | GetSystemTimeStep int
  | WaitStep int "nat list"
  | OnEventDeliveredStep nat

text \<open>The body of the \<^verbatim>\<open>while\<close>: its steps, whether it left by \<^verbatim>\<open>break\<close>, the state after.\<close>

definition loop_body :: "'w collaborators \<Rightarrow> 'w process \<Rightarrow> loop_step list \<times> bool \<times> 'w process" where
  "loop_body co s =
     (let s1 = ClearHeldObjects co s;
          (sleep, s2) = ProcessTimers co s1
      in if m_ShuttingDown s2
         then ([ClearHeldObjectsStep, ProcessTimersStep sleep, CheckShuttingDown True], True, s2)
         else
           let now = get_system_time co s2;
               deadline = now + 1000000 * sleep;
               (events, s3) = Wait co deadline s2;
               s4 = fold (OnEventDelivered co) events s3
           in ([ClearHeldObjectsStep, ProcessTimersStep sleep, CheckShuttingDown False,
                GetSystemTimeStep now, WaitStep deadline events]
               @ map OnEventDeliveredStep events, False, s4))"

text \<open>
  The loop, which need not end: the first argument bounds the number of iterations,
  and \<open>None\<close> says that the bound was reached with the loop still running.
\<close>

fun RunEventLoop ::
  "nat \<Rightarrow> 'w collaborators \<Rightarrow> 'w process \<Rightarrow> (loop_step list \<times> 'w process) option" where
  "RunEventLoop 0 co s = (if m_ShuttingDown s then Some ([], s) else None)"
| "RunEventLoop (Suc n) co s =
     (if m_ShuttingDown s then Some ([], s)
      else case loop_body co s of
        (steps, left_by_break, s') \<Rightarrow>
          if left_by_break then Some (steps, s')
          else case RunEventLoop n co s' of
                 None \<Rightarrow> None
               | Some (later, s'') \<Rightarrow> Some (steps @ later, s''))"

text \<open>
  The spec's words for the iterations: release the held objects; process the timers;
  check the flag again and leave when it is set; wait until the deadline, which is the
  sleep time from now; dispatch each delivered event in the order of delivery.
\<close>

fun spec_iterations :: "loop_step list \<Rightarrow> bool" where
  "spec_iterations [] = True"
| "spec_iterations (ClearHeldObjectsStep # ProcessTimersStep sleep # CheckShuttingDown True # later) =
     (later = [])"
| "spec_iterations (ClearHeldObjectsStep # ProcessTimersStep sleep # CheckShuttingDown False
                     # GetSystemTimeStep now # WaitStep deadline events # later) =
     (deadline = now + 1000000 * sleep
      \<and> take (length events) later = map OnEventDeliveredStep events
      \<and> spec_iterations (drop (length events) later))"
| "spec_iterations other = False"

subsection \<open>\<^verbatim>\<open>SigIntHandler\<close>\<close>

definition SIGINT :: int where
  "SIGINT = 2"

definition SigIntHandler :: "int \<Rightarrow> 'w process \<Rightarrow> (exn, unit) outcome \<times> 'w process" where
  "SigIntHandler signum s =
     (if signum \<noteq> SIGINT then (AssertionFailed, s)
      else case GetInstance s of
        None \<Rightarrow> (Returns (), s)
      | Some instance \<Rightarrow> (Returns (), (Shutdown s)\<lparr>sigint := SIG_DFL\<rparr>))"

subsection \<open>\<^verbatim>\<open>Run\<close>\<close>

text \<open>
  What the entry point may throw: an object of a class derived from \<^verbatim>\<open>std::exception\<close>,
  given by the two strings \<^verbatim>\<open>Utility::GetTypeName(ex)\<close> and \<^verbatim>\<open>ex.what()\<close>, or an object
  of another type, which \<^verbatim>\<open>catch (const std::exception&)\<close> does not catch.
\<close>

datatype thrown = StdException (type_name: string) (what: string) | NotStdException

definition EXIT_FAILURE :: int where
  "EXIT_FAILURE = 1"

text \<open>
  \<open>Main\<close> is the pure virtual entry point: it gets the arguments and the state, and
  returns a result or throws (\<open>Inl\<close>). \<open>self\<close> is \<^verbatim>\<open>GetSelf()\<close>, \<open>tid\<close> the calling
  thread, \<open>argv\<close> the \<open>argc\<close> argument strings.
\<close>

definition Run ::
  "(string list \<Rightarrow> 'w process \<Rightarrow> (thrown + int) \<times> 'w process) \<Rightarrow> nat \<Rightarrow> nat \<Rightarrow> string list
     \<Rightarrow> 'w process \<Rightarrow> (thrown, int) outcome \<times> 'w process" where
  "Run Main self tid argv s =
     (if m_Instance s \<noteq> None then (AssertionFailed, s)
      else
        let s1 = s\<lparr>m_MainThreadID := Some tid\<rparr>;
            s2 = s1\<lparr>m_Instance := Some self\<rparr>;
            s3 = s2\<lparr>sigint := SigIntHandlerInstalled\<rparr>;
            s4 = s3\<lparr>sigpipe := SIG_IGN\<rparr>;
            s5 = s4\<lparr>m_Arguments := argv\<rparr>
        in if IsDebugging s5 then
             (case Main (m_Arguments s5) s5 of
                (Inl ex, s6) \<Rightarrow> (Throws ex, s6)
              | (Inr res, s6) \<Rightarrow> (Returns res, s6\<lparr>m_Instance := None\<rparr>))
           else
             (case Main (m_Arguments s5) s5 of
                (Inr res, s6) \<Rightarrow> (Returns res, s6)
              | (Inl NotStdException, s6) \<Rightarrow> (Throws NotStdException, s6)
              | (Inl (StdException kind message), s6) \<Rightarrow>
                  let s7 = s6\<lparr>m_Instance := None\<rparr>;
                      s8 = Logger_Write LogCritical ''base'' ''---'' s7;
                      s9 = Logger_Write LogCritical ''base'' (''Exception: '' @ kind) s8;
                      s10 = Logger_Write LogCritical ''base'' (''Message: '' @ message) s9
                  in (Returns EXIT_FAILURE, s10)))"

text \<open>The state in which \<open>Run\<close> calls \<open>Main\<close>.\<close>

definition at_Main :: "nat \<Rightarrow> nat \<Rightarrow> string list \<Rightarrow> 'w process \<Rightarrow> 'w process" where
  "at_Main self tid argv s =
     s\<lparr>m_MainThreadID := Some tid, m_Instance := Some self, sigint := SigIntHandlerInstalled,
       sigpipe := SIG_IGN, m_Arguments := argv\<rparr>"

subsection \<open>Calls from many threads\<close>

text \<open>
  The calls that threads, signal handlers and the code of the application's user can
  make on the application, each taken as one step: the operations above, the two
  assignments of \<open>Run\<close> to \<^verbatim>\<open>m_Instance\<close> (the static members are private, so no other
  code writes them), the destructor, and any change of the rest of the process. A
  schedule is a list of steps, each with the thread that makes it, in the order in
  which they take effect.
\<close>

datatype 'w action =
    CallShutdown
  | CallSigIntHandler
  | CallRegisterComponent component
  | CallUnregisterComponent component
  | CallLoadComponent loader string "nat option"
  | CallGetExePath posix
  | RunAssignsInstance nat "string list"
  | RunResetsInstance
  | CallDestructor
  | UserCode "'w \<Rightarrow> 'w"

fun perform :: "nat \<times> 'w action \<Rightarrow> 'w process \<Rightarrow> 'w process" where
  "perform (tid, CallShutdown) s = Shutdown s"
| "perform (tid, CallSigIntHandler) s = snd (SigIntHandler SIGINT s)"
| "perform (tid, CallRegisterComponent c) s = RegisterComponent c s"
| "perform (tid, CallUnregisterComponent c) s = UnregisterComponent c s"
| "perform (tid, CallLoadComponent ld path cfg) s = snd (LoadComponent ld tid path cfg s)"
| "perform (tid, CallGetExePath os) s = snd (GetExePath os s)"
| "perform (tid, RunAssignsInstance self argv) s =
     (if m_Instance s \<noteq> None then s else at_Main self tid argv s)"
| "perform (tid, RunResetsInstance) s = s\<lparr>m_Instance := None\<rparr>"
| "perform (tid, CallDestructor) s = destructor s"
| "perform (tid, UserCode f) s = s\<lparr>world := f (world s)\<rparr>"

definition run_schedule :: "(nat \<times> 'w action) list \<Rightarrow> 'w process \<Rightarrow> 'w process" where
  "run_schedule sched s = fold perform sched s"

text \<open>How often the flag goes from unset to set, and from set to unset, in a schedule.\<close>

fun flag_raised :: "(nat \<times> 'w action) list \<Rightarrow> 'w process \<Rightarrow> nat" where
  "flag_raised [] s = 0"
| "flag_raised (a # sched) s =
     (if \<not> m_ShuttingDown s \<and> m_ShuttingDown (perform a s) then 1 else 0)
     + flag_raised sched (perform a s)"

fun flag_lowered :: "(nat \<times> 'w action) list \<Rightarrow> 'w process \<Rightarrow> nat" where
  "flag_lowered [] s = 0"
| "flag_lowered (a # sched) s =
     (if m_ShuttingDown s \<and> \<not> m_ShuttingDown (perform a s) then 1 else 0)
     + flag_lowered sched (perform a s)"

subsection \<open>Example inputs\<close>

text \<open>A loader that opens every library and finds no symbol in it.\<close>

definition loader_without_factory :: loader where
  "loader_without_factory =
     \<lparr> lt_dlopen = (\<lambda>path. Some 1), lt_dlerror = ''no error'', lt_dlsym = (\<lambda>h name. None) \<rparr>"

text \<open>A loader that opens no library.\<close>

definition loader_without_library :: loader where
  "loader_without_library =
     \<lparr> lt_dlopen = (\<lambda>path. None), lt_dlerror = ''file not found'', lt_dlsym = (\<lambda>h name. None) \<rparr>"

text \<open>The state after the static initialisers, with thread 0 recorded as the main thread.\<close>

definition on_main_thread :: "unit process" where
  "on_main_thread = (initial ())\<lparr>m_MainThreadID := Some 0\<rparr>"

text \<open>Entry points that throw at once: a \<^verbatim>\<open>std::logic_error\<close>, and an \<^verbatim>\<open>int\<close>.\<close>

definition main_throws_logic_error ::
  "string list \<Rightarrow> unit process \<Rightarrow> (thrown + int) \<times> unit process" where
  "main_throws_logic_error args s = (Inl (StdException ''std::logic_error'' ''bad state''), s)"

definition main_throws_int ::
  "string list \<Rightarrow> unit process \<Rightarrow> (thrown + int) \<times> unit process" where
  "main_throws_int args s = (Inl NotStdException, s)"

definition debugging :: "unit process" where
  "debugging = (initial ())\<lparr>m_Debugging := True\<rparr>"

text \<open>
  A system with no \<^verbatim>\<open>PATH\<close> in the environment, on which no file may be executed; and
  one with a \<^verbatim>\<open>PATH\<close> of two directories, the second of which holds the executable.
\<close>

definition os_without_PATH :: posix where
  "os_without_PATH =
     \<lparr> getcwd = Inr ''/opt'', getenv_PATH = None, access_X_OK = (\<lambda>p. False),
       realpath = (\<lambda>p. Inr p) \<rparr>"

definition os_with_PATH :: posix where
  "os_with_PATH =
     \<lparr> getcwd = Inr ''/home/icinga'', getenv_PATH = Some ''/bin:/usr/sbin'',
       access_X_OK = (\<lambda>p. p = ''/usr/sbin/icinga2''),
       realpath = (\<lambda>p. if absolute p then Inr p else Inl 2) \<rparr>"

definition started_as :: "string \<Rightarrow> unit process" where
  "started_as argv0 = (initial ())\<lparr>m_Arguments := [argv0]\<rparr>"

text \<open>
  Collaborators for examples: a timer that calls \<open>Shutdown\<close>; and a queue that delivers
  the events 1 and 2, the second of which calls \<open>Shutdown\<close>.
\<close>

definition timer_shuts_down :: "unit collaborators" where
  "timer_shuts_down =
     \<lparr> ClearHeldObjects = (\<lambda>s. s), ProcessTimers = (\<lambda>s. (5, Shutdown s)),
       get_system_time = (\<lambda>s. 0), Wait = (\<lambda>deadline s. ([], s)),
       OnEventDelivered = (\<lambda>ev s. s) \<rparr>"

definition event_shuts_down :: "unit collaborators" where
  "event_shuts_down =
     \<lparr> ClearHeldObjects = (\<lambda>s. s), ProcessTimers = (\<lambda>s. (5, s)),
       get_system_time = (\<lambda>s. 7000000), Wait = (\<lambda>deadline s. ([1, 2], s)),
       OnEventDelivered = (\<lambda>ev s. if ev = 2 then Shutdown s else s) \<rparr>"

text \<open>
  A schedule of four threads: thread 1 calls \<open>Shutdown\<close>, thread 2 enters \<open>Run\<close>, the
  interrupt signal arrives on thread 0, thread 3 calls \<open>Shutdown\<close>.
\<close>

definition four_threads :: "(nat \<times> unit action) list" where
  "four_threads =
     [(1, CallShutdown), (2, RunAssignsInstance 7 [''icinga2'']), (0, CallSigIntHandler),
      (3, CallShutdown)]"

definition running :: "unit process" where
  "running = (initial ())\<lparr>m_Instance := Some 7\<rparr>"

section \<open>Properties of the registry\<close>

lemma map_find_assign:
  "map_find k (map_assign k' v m) = (if k = k' then Some v else map_find k m)"
  by (induction m) auto

lemma keys_assign: "set (map fst (map_assign k v m)) = insert k (set (map fst m))"
  by (induction k v m rule: map_assign.induct) auto

lemma keys_erase: "set (map fst (map_erase k m)) \<subseteq> set (map fst m)"
  by (induction k m rule: map_erase.induct) auto

lemma map_ok_Cons: "map_ok ((k, v) # m) \<longleftrightarrow> (\<forall>k' \<in> set (map fst m). k < k') \<and> map_ok m"
  by (simp add: map_ok_def)

lemma map_ok_assign: "map_ok m \<Longrightarrow> map_ok (map_assign k v m)"
proof (induction m)
  case Nil
  then show ?case by (simp add: map_ok_def)
next
  case (Cons e m)
  obtain k' v' where e: "e = (k', v')" by (cases e)
  from Cons.prems e have above: "\<forall>x \<in> set (map fst m). k' < x" and ok: "map_ok m"
    by (simp_all add: map_ok_Cons)
  show ?case
  proof (cases "k = k'")
    case True
    with above ok e show ?thesis by (simp add: map_ok_Cons)
  next
    case False
    show ?thesis
    proof (cases "k < k'")
      case True
      with above ok e False show ?thesis
        by (auto simp add: map_ok_Cons simp del: set_map)
    next
      case nless: False
      with False have "k' < k" by simp
      with above ok e False nless Cons.IH [OF ok] show ?thesis
        by (simp add: map_ok_Cons keys_assign del: set_map)
    qed
  qed
qed

lemma map_find_None_iff: "map_find k m = None \<longleftrightarrow> k \<notin> set (map fst m)"
  by (induction k m rule: map_find.induct) auto

lemma map_find_erase:
  "map_ok m \<Longrightarrow> map_find k (map_erase k' m) = (if k = k' then None else map_find k m)"
proof (induction m)
  case Nil
  then show ?case by simp
next
  case (Cons e m)
  obtain k1 v1 where e: "e = (k1, v1)" by (cases e)
  from Cons.prems e have above: "\<forall>x \<in> set (map fst m). k1 < x" and ok: "map_ok m"
    by (simp_all add: map_ok_Cons)
  from above have "k1 \<notin> set (map fst m)" by auto
  then have "map_find k1 m = None"
    by (simp only: map_find_None_iff not_False_eq_True)
  with Cons.IH [OF ok] e show ?case
    by auto
qed

lemma map_ok_erase: "map_ok m \<Longrightarrow> map_ok (map_erase k m)"
proof (induction m)
  case Nil
  then show ?case by simp
next
  case (Cons e m)
  obtain k1 v1 where e: "e = (k1, v1)" by (cases e)
  from Cons.prems e have above: "\<forall>x \<in> set (map fst m). k1 < x" and ok: "map_ok m"
    by (simp_all add: map_ok_Cons)
  from above keys_erase [of k m] have "\<forall>x \<in> set (map fst (map_erase k m)). k1 < x"
    by blast
  with Cons.IH [OF ok] ok e show ?case
    by (simp add: map_ok_Cons del: set_map)
qed

lemma map_find_erase_other: "k \<noteq> k' \<Longrightarrow> map_find k (map_erase k' m) = map_find k m"
  by (induction k' m rule: map_erase.induct) auto

lemma calls_register_all: "calls (register_all cs s) = calls s @ map StartCall cs"
  unfolding register_all_def
  by (induction cs arbitrary: s) (simp_all add: RegisterComponent_def Start_def)

lemma calls_since_register_all: "calls_since s (register_all cs s) = map StartCall cs"
  by (simp add: calls_since_def calls_register_all)

lemma GetComponent_register_all:
  "GetComponent n (register_all cs s) =
     (case most_recent n cs of Some c \<Rightarrow> Some c | None \<Rightarrow> GetComponent n s)"
proof (induction cs arbitrary: s rule: rev_induct)
  case Nil
  then show ?case by (simp add: register_all_def most_recent_def)
next
  case (snoc c cs)
  have "register_all (cs @ [c]) s = RegisterComponent c (register_all cs s)"
    by (simp add: register_all_def)
  then have "GetComponent n (register_all (cs @ [c]) s) =
      (if n = GetName c then Some c else GetComponent n (register_all cs s))"
    by (simp add: GetComponent_def RegisterComponent_def Start_def map_find_assign)
  with snoc show ?case
    by (auto simp: most_recent_def)
qed

lemma most_recent_distinct:
  "distinct (map GetName cs) \<Longrightarrow> c \<in> set cs \<Longrightarrow> most_recent (GetName c) cs = Some c"
proof (induction cs rule: rev_induct)
  case Nil
  then show ?case by simp
next
  case (snoc x xs)
  then show ?case
    by (auto simp: most_recent_def)
qed

lemma count_list_distinct: "distinct xs \<Longrightarrow> x \<in> set xs \<Longrightarrow> count_list xs x = 1"
  by (induction xs) auto

lemma state_register_all:
  "c \<in> set cs \<Longrightarrow> component_state (register_all cs s) c = Started"
proof (induction cs arbitrary: s rule: rev_induct)
  case Nil
  then show ?case by simp
next
  case (snoc x xs)
  have "register_all (xs @ [x]) s = RegisterComponent x (register_all xs s)"
    by (simp add: register_all_def)
  with snoc show ?case
    by (auto simp: RegisterComponent_def Start_def)
qed

text \<open>
  C5. After any sequence of \<^verbatim>\<open>RegisterComponent\<close> calls on components with pairwise
  distinct names, \<^verbatim>\<open>GetComponent\<close> of the name of each returns that component, which is
  the most recently registered one of that name; \<^verbatim>\<open>Start\<close> has been called on each
  exactly once when its own registration returns, and still exactly once at the end of
  the sequence, where it is in the started state.
\<close>

theorem register_distinct_names:
  assumes "distinct (map GetName cs)"
  shows "(\<forall>c \<in> set cs. GetComponent (GetName c) (register_all cs s) = Some c
            \<and> most_recent (GetName c) cs = Some c
            \<and> count_list (calls_since s (register_all cs s)) (StartCall c) = 1
            \<and> component_state (register_all cs s) c = Started)
       \<and> (\<forall>i < length cs.
            count_list (calls_since s (register_all (take (Suc i) cs) s)) (StartCall (cs ! i)) = 1)"
proof -
  from assms have d: "distinct cs"
    by (rule distinct_map [THEN iffD1, THEN conjunct1])
  have inj: "inj StartCall" by (simp add: inj_def)
  have dm: "distinct (map StartCall xs)" if "distinct xs" for xs
    using that by (simp add: distinct_map inj_def inj_on_def)
  have a: "GetComponent (GetName c) (register_all cs s) = Some c" if "c \<in> set cs" for c
    using that assms by (simp add: GetComponent_register_all most_recent_distinct)
  have b: "count_list (calls_since s (register_all cs s)) (StartCall c) = 1" if "c \<in> set cs" for c
    using that d by (simp add: calls_since_register_all count_list_distinct dm)
  have c: "count_list (calls_since s (register_all (take (Suc i) cs) s)) (StartCall (cs ! i)) = 1"
    if "i < length cs" for i
  proof -
    from d have "distinct (take (Suc i) cs)" by simp
    moreover from that have "cs ! i \<in> set (take (Suc i) cs)"
      by (simp add: take_Suc_conv_app_nth)
    ultimately show ?thesis
      by (simp only: calls_since_register_all) (rule count_list_distinct, rule dm, simp_all)
  qed
  from a b c assms show ?thesis
    by (simp add: most_recent_distinct state_register_all)
qed

theorem register_distinct_names_witness:
  "distinct (map GetName [Component 1 ''checker'', Component 2 ''notifier''])
   \<and> GetComponent ''checker'' (register_all [Component 1 ''checker'', Component 2 ''notifier''] (initial ())) = Some (Component 1 ''checker'')
   \<and> GetComponent ''notifier'' (register_all [Component 1 ''checker'', Component 2 ''notifier''] (initial ())) = Some (Component 2 ''notifier'')
   \<and> count_list (calls_since (initial ()) (register_all (take (Suc 0) [Component 1 ''checker'', Component 2 ''notifier'']) (initial ())))
        (StartCall ([Component 1 ''checker'', Component 2 ''notifier''] ! 0)) = 1"
proof -
  have h: "distinct (map GetName [Component 1 ''checker'', Component 2 ''notifier''])" by simp
  from h register_distinct_names [OF h, of "initial ()"] show ?thesis
    by (simp add: calls_since_def register_all_def RegisterComponent_def Start_def initial_def)
qed

lemma map_erase_absent: "map_find k m = None \<Longrightarrow> map_erase k m = m"
  by (induction k m rule: map_erase.induct) (auto split: if_splits)

lemma RegisterComponent_fields:
  "m_Components (RegisterComponent c s) = map_assign (GetName c) c (m_Components s)"
  "calls (RegisterComponent c s) = calls s @ [StartCall c]"
  "component_state (RegisterComponent c s) = (component_state s)(c := Started)"
  "component_config (RegisterComponent c s) = component_config s"
  "logged (RegisterComponent c s) = logged s"
  "m_ShuttingDown (RegisterComponent c s) = m_ShuttingDown s"
  "m_Instance (RegisterComponent c s) = m_Instance s"
  by (simp_all add: RegisterComponent_def Start_def)

lemma UnregisterComponent_fields:
  "m_Components (UnregisterComponent c s) = map_erase (GetName c) (m_Components s)"
  "calls (UnregisterComponent c s) = calls s @ [StopCall c]"
  "component_state (UnregisterComponent c s) = (component_state s)(c := Stopped)"
  "component_config (UnregisterComponent c s) = component_config s"
  "logged (UnregisterComponent c s) =
     logged s @ [(LogInformation, ''base'', ''Unloading component '' @ [CHR 0x27] @ GetName c @ [CHR 0x27])]"
  "m_ShuttingDown (UnregisterComponent c s) = m_ShuttingDown s"
  "m_Instance (UnregisterComponent c s) = m_Instance s"
  by (simp_all add: UnregisterComponent_def Stop_def Logger_Write_def Let_def map_erase_absent
        split: option.splits)

text \<open>
  C6. When a component \<open>b\<close> is registered under a name that the registry maps to another
  component \<open>a\<close>, the lookup of the name gives \<open>b\<close> afterwards and the other names are
  mapped as before; the one call made on any component is \<^verbatim>\<open>Start\<close> on \<open>b\<close>, so
  \<^verbatim>\<open>Stop\<close> is not called on \<open>a\<close>, and the lifecycle state and the configuration of \<open>a\<close> are
  what they were.
\<close>

theorem register_replaces_without_stop:
  assumes "GetComponent (GetName b) s = Some a" and "a \<noteq> b"
  shows "GetComponent (GetName b) (RegisterComponent b s) = Some b
       \<and> (\<forall>n. n \<noteq> GetName b \<longrightarrow> GetComponent n (RegisterComponent b s) = GetComponent n s)
       \<and> calls_since s (RegisterComponent b s) = [StartCall b]
       \<and> StopCall a \<notin> set (calls_since s (RegisterComponent b s))
       \<and> component_state (RegisterComponent b s) a = component_state s a
       \<and> component_config (RegisterComponent b s) a = component_config s a
       \<and> logged (RegisterComponent b s) = logged s"
  using assms
  by (simp add: GetComponent_def calls_since_def RegisterComponent_fields map_find_assign)

theorem register_replaces_without_stop_witness:
  "GetComponent (GetName (Component 2 ''checker'')) (RegisterComponent (Component 1 ''checker'') (initial ()))
     = Some (Component 1 ''checker'')
   \<and> Component 1 ''checker'' \<noteq> Component 2 ''checker''
   \<and> GetComponent ''checker''
        (RegisterComponent (Component 2 ''checker'') (RegisterComponent (Component 1 ''checker'') (initial ())))
       = Some (Component 2 ''checker'')
   \<and> component_state
        (RegisterComponent (Component 2 ''checker'') (RegisterComponent (Component 1 ''checker'') (initial ())))
        (Component 1 ''checker'') = Started"
proof -
  have h1: "GetComponent (GetName (Component 2 ''checker''))
              (RegisterComponent (Component 1 ''checker'') (initial ())) = Some (Component 1 ''checker'')"
    by (simp add: GetComponent_def RegisterComponent_fields initial_def)
  have h2: "Component 1 ''checker'' \<noteq> Component 2 ''checker''"
    by simp
  from h1 h2 register_replaces_without_stop [OF h1 h2] show ?thesis
    by (simp add: RegisterComponent_fields initial_def)
qed

text \<open>
  C7. \<^verbatim>\<open>UnregisterComponent\<close> leaves no mapping for the name of the component it is given
  (the map holding one entry for each key) and keeps the mappings of the other names;
  when there was no mapping for the name the map is unchanged. In every case it logs
  the removal and makes one call on a component, \<^verbatim>\<open>Stop\<close> on the component given, which
  is then in the stopped state.
\<close>

theorem unregister_erases_and_stops:
  "(map_ok (m_Components s) \<longrightarrow> GetComponent (GetName c) (UnregisterComponent c s) = None)
   \<and> (\<forall>n. n \<noteq> GetName c \<longrightarrow> GetComponent n (UnregisterComponent c s) = GetComponent n s)
   \<and> (GetComponent (GetName c) s = None \<longrightarrow>
        m_Components (UnregisterComponent c s) = m_Components s)
   \<and> calls_since s (UnregisterComponent c s) = [StopCall c]
   \<and> count_list (calls_since s (UnregisterComponent c s)) (StopCall c) = 1
   \<and> component_state (UnregisterComponent c s) c = Stopped
   \<and> logged (UnregisterComponent c s) =
        logged s @ [(LogInformation, ''base'',
                     ''Unloading component '' @ [CHR 0x27] @ GetName c @ [CHR 0x27])]"
  by (simp add: GetComponent_def calls_since_def UnregisterComponent_fields map_find_erase
        map_find_erase_other map_erase_absent)

theorem unregister_erases_and_stops_witness:
  "map_ok (m_Components (RegisterComponent (Component 1 ''checker'') (initial ())))
   \<and> GetComponent ''checker''
        (UnregisterComponent (Component 1 ''checker'')
           (RegisterComponent (Component 1 ''checker'') (initial ()))) = None
   \<and> ''checker'' \<noteq> GetName (Component 7 ''absent'')
   \<and> GetComponent ''checker''
        (UnregisterComponent (Component 7 ''absent'')
           (RegisterComponent (Component 1 ''checker'') (initial ())))
       = Some (Component 1 ''checker'')
   \<and> GetComponent (GetName (Component 7 ''absent''))
        (RegisterComponent (Component 1 ''checker'') (initial ())) = None
   \<and> component_state
        (UnregisterComponent (Component 7 ''absent'')
           (RegisterComponent (Component 1 ''checker'') (initial ())))
        (Component 7 ''absent'') = Stopped"
proof -
  let ?s = "RegisterComponent (Component 1 ''checker'') (initial () :: unit process)"
  have ok: "map_ok (m_Components ?s)"
    by (simp add: RegisterComponent_fields initial_def map_ok_def)
  from ok unregister_erases_and_stops [where s = ?s and c = "Component 1 ''checker''"]
    unregister_erases_and_stops [where s = ?s and c = "Component 7 ''absent''"]
  show ?thesis
    by (simp add: GetComponent_def RegisterComponent_fields UnregisterComponent_fields initial_def)
qed

text \<open>
  C10. \<^verbatim>\<open>UnregisterComponent\<close> erases by name: when the registry maps the name of the
  component \<open>a\<close> it is given to a different component \<open>b\<close>, it is the entry of \<open>b\<close> that
  goes, \<^verbatim>\<open>Stop\<close> is called on \<open>a\<close> and not on \<open>b\<close>, and \<open>b\<close> keeps its lifecycle state.
  So after registering \<open>a\<close> and then \<open>b\<close> under one name, unregistering \<open>a\<close> leaves the
  name unmapped, with \<open>a\<close> stopped and \<open>b\<close> started and never stopped.
\<close>

theorem unregister_by_name_not_identity:
  assumes "map_ok (m_Components s)" and "GetName a = GetName b" and "a \<noteq> b"
  shows "(GetComponent (GetName a) s = Some b \<longrightarrow>
            GetComponent (GetName a) (UnregisterComponent a s) = None
          \<and> calls_since s (UnregisterComponent a s) = [StopCall a]
          \<and> component_state (UnregisterComponent a s) b = component_state s b)
       \<and> GetComponent (GetName a) (RegisterComponent b (RegisterComponent a s)) = Some b
       \<and> GetComponent (GetName a)
            (UnregisterComponent a (RegisterComponent b (RegisterComponent a s))) = None
       \<and> calls_since s (UnregisterComponent a (RegisterComponent b (RegisterComponent a s)))
            = [StartCall a, StartCall b, StopCall a]
       \<and> StopCall b \<notin> set (calls_since s
            (UnregisterComponent a (RegisterComponent b (RegisterComponent a s))))
       \<and> component_state (UnregisterComponent a (RegisterComponent b (RegisterComponent a s))) a
            = Stopped
       \<and> component_state (UnregisterComponent a (RegisterComponent b (RegisterComponent a s))) b
            = Started"
proof -
  from assms(1) have ok: "map_ok (map_assign (GetName b) b (map_assign (GetName a) a (m_Components s)))"
    by (intro map_ok_assign)
  from assms ok show ?thesis
    by (simp add: GetComponent_def calls_since_def RegisterComponent_fields
          UnregisterComponent_fields map_find_erase map_find_assign)
qed

theorem unregister_by_name_not_identity_witness:
  "map_ok (m_Components (initial ()))
   \<and> GetName (Component 1 ''checker'') = GetName (Component 2 ''checker'')
   \<and> Component 1 ''checker'' \<noteq> Component 2 ''checker''
   \<and> GetComponent ''checker''
        (RegisterComponent (Component 2 ''checker'')
           (RegisterComponent (Component 1 ''checker'') (initial ()))) = Some (Component 2 ''checker'')
   \<and> GetComponent ''checker''
        (UnregisterComponent (Component 1 ''checker'')
           (RegisterComponent (Component 2 ''checker'')
              (RegisterComponent (Component 1 ''checker'') (initial ())))) = None
   \<and> component_state
        (UnregisterComponent (Component 1 ''checker'')
           (RegisterComponent (Component 2 ''checker'')
              (RegisterComponent (Component 1 ''checker'') (initial ()))))
        (Component 2 ''checker'') = Started
   \<and> map_ok (m_Components (RegisterComponent (Component 2 ''checker'')
              (RegisterComponent (Component 1 ''checker'') (initial ()))))
   \<and> calls_since
        (RegisterComponent (Component 2 ''checker'')
           (RegisterComponent (Component 1 ''checker'') (initial ())))
        (UnregisterComponent (Component 1 ''checker'')
           (RegisterComponent (Component 2 ''checker'')
              (RegisterComponent (Component 1 ''checker'') (initial ()))))
       = [StopCall (Component 1 ''checker'')]"
proof -
  let ?s1 = "RegisterComponent (Component 2 ''checker'')
               (RegisterComponent (Component 1 ''checker'') (initial () :: unit process))"
  have h0: "map_ok (m_Components ?s1)"
    by (simp add: RegisterComponent_fields initial_def map_ok_def)
  have g: "GetComponent (GetName (Component 1 ''checker'')) ?s1 = Some (Component 2 ''checker'')"
    by (simp add: GetComponent_def RegisterComponent_fields initial_def)
  have h1: "map_ok (m_Components (initial () :: unit process))"
    by (simp add: initial_def map_ok_def)
  have h2: "GetName (Component 1 ''checker'') = GetName (Component 2 ''checker'')"
    by simp
  have h3: "Component 1 ''checker'' \<noteq> Component 2 ''checker''"
    by simp
  from h0 h1 h2 h3 g unregister_by_name_not_identity [OF h1 h2 h3]
    unregister_by_name_not_identity [OF h0 h2 h3]
  show ?thesis
    by simp
qed

section \<open>Loading components\<close>

text \<open>
  C4, as stated, fails: with a library that opens and has no \<^verbatim>\<open>CreateComponent\<close> symbol,
  the message of the error is a fixed sentence in which the path \<^verbatim>\<open>checker.so\<close> does
  not occur.
\<close>

theorem load_missing_factory_counterexample:
  "fst (LoadComponent loader_without_factory 0 ''checker.so'' None on_main_thread)
     = Throws (RuntimeError ''Loadable module does not contain CreateComponent function'')
   \<and> \<not> sublist ''checker.so'' ''Loadable module does not contain CreateComponent function''"
proof -
  have "\<not> sublist ''checker.so'' ''Loadable module does not contain CreateComponent function''"
    by code_simp
  then show ?thesis
    by (simp add: LoadComponent_def loader_without_factory_def on_main_thread_def
          IsMainThread_def initial_def Logger_Write_def)
qed

text \<open>
  C4, amended. On the main thread: when the library cannot be opened, \<^verbatim>\<open>LoadComponent\<close>
  throws a \<^verbatim>\<open>runtime_error\<close> whose message is \<^verbatim>\<open>Could not load module '<path>': \<close>
  followed by the loader's diagnostic, so the path occurs in it; when the library opens
  and has no \<^verbatim>\<open>CreateComponent\<close> symbol, it throws a \<^verbatim>\<open>runtime_error\<close> with the fixed
  message \<^verbatim>\<open>Loadable module does not contain CreateComponent function\<close>, which differs
  from the error of every failed open. In both cases the loading is logged and nothing
  else changes: no component is registered or started.
\<close>

theorem load_component_errors:
  assumes "IsMainThread tid s"
  shows "(lt_dlopen ld path = None \<longrightarrow>
            (\<exists>msg. fst (LoadComponent ld tid path cfg s) = Throws (RuntimeError msg)
                  \<and> sublist path msg
                  \<and> msg = ''Could not load module '' @ [CHR 0x27] @ path @ [CHR 0x27] @ '': ''
                            @ lt_dlerror ld))
       \<and> (\<forall>h. lt_dlopen ld path = Some h \<and> lt_dlsym ld h ''CreateComponent'' = None \<longrightarrow>
            fst (LoadComponent ld tid path cfg s)
              = Throws (RuntimeError ''Loadable module does not contain CreateComponent function'')
            \<and> (\<forall>ld' path'. lt_dlopen ld' path' = None \<longrightarrow>
                  fst (LoadComponent ld tid path cfg s) \<noteq> fst (LoadComponent ld' tid path' cfg s)))
       \<and> ((lt_dlopen ld path = None
            \<or> (\<exists>h. lt_dlopen ld path = Some h \<and> lt_dlsym ld h ''CreateComponent'' = None)) \<longrightarrow>
            snd (LoadComponent ld tid path cfg s)
              = Logger_Write LogInformation ''base''
                  (''Loading component '' @ [CHR 0x27] @ path @ [CHR 0x27]) s)"
proof -
  have sub: "sublist path (''Could not load module '' @ [CHR 0x27] @ path @ [CHR 0x27] @ '': '' @ e)"
    for e
  proof -
    have "''Could not load module '' @ [CHR 0x27] @ path @ [CHR 0x27] @ '': '' @ e
            = (''Could not load module '' @ [CHR 0x27]) @ path @ ([CHR 0x27] @ '': '' @ e)"
      by simp
    then show ?thesis
      unfolding sublist_def by blast
  qed
  have closed: "fst (LoadComponent ld tid path cfg s)
      = Throws (RuntimeError (''Could not load module '' @ [CHR 0x27] @ path @ [CHR 0x27] @ '': ''
                                @ lt_dlerror ld))"
    if "lt_dlopen ld path = None" for ld path
    using that assms by (simp add: LoadComponent_def)
  have nosym: "fst (LoadComponent ld tid path cfg s)
      = Throws (RuntimeError ''Loadable module does not contain CreateComponent function'')"
    if "lt_dlopen ld path = Some h" and "lt_dlsym ld h ''CreateComponent'' = None" for h
    using that assms by (simp add: LoadComponent_def)
  have state: "snd (LoadComponent ld tid path cfg s)
      = Logger_Write LogInformation ''base'' (''Loading component '' @ [CHR 0x27] @ path @ [CHR 0x27]) s"
    if "lt_dlopen ld path = None
        \<or> (\<exists>h. lt_dlopen ld path = Some h \<and> lt_dlsym ld h ''CreateComponent'' = None)"
    using that assms by (auto simp: LoadComponent_def)
  from closed [of ld path] sub [of "lt_dlerror ld"]
  have one: "lt_dlopen ld path = None \<longrightarrow>
            (\<exists>msg. fst (LoadComponent ld tid path cfg s) = Throws (RuntimeError msg)
                  \<and> sublist path msg
                  \<and> msg = ''Could not load module '' @ [CHR 0x27] @ path @ [CHR 0x27] @ '': ''
                            @ lt_dlerror ld)"
    by simp
  have two: "fst (LoadComponent ld tid path cfg s) \<noteq> fst (LoadComponent ld' tid path' cfg s)"
    if "lt_dlopen ld path = Some h" and "lt_dlsym ld h ''CreateComponent'' = None"
      and "lt_dlopen ld' path' = None" for h ld' path'
    using nosym [OF that(1,2)] closed [OF that(3)] by simp
  from one two nosym state show ?thesis
    by blast
qed

theorem load_component_errors_witness:
  "IsMainThread 0 on_main_thread
   \<and> lt_dlopen loader_without_library ''checker.so'' = None
   \<and> fst (LoadComponent loader_without_library 0 ''checker.so'' None on_main_thread)
       = Throws (RuntimeError ''Could not load module 'checker.so': file not found'')
   \<and> lt_dlopen loader_without_factory ''checker.so'' = Some 1
   \<and> lt_dlsym loader_without_factory 1 ''CreateComponent'' = None
   \<and> fst (LoadComponent loader_without_factory 0 ''checker.so'' None on_main_thread)
       \<noteq> fst (LoadComponent loader_without_library 0 ''checker.so'' None on_main_thread)
   \<and> m_Components (snd (LoadComponent loader_without_factory 0 ''checker.so'' None on_main_thread)) = []"
proof -
  have h: "IsMainThread 0 on_main_thread"
    by (simp add: IsMainThread_def on_main_thread_def)
  from h load_component_errors [OF h, of loader_without_library "''checker.so''" None]
    load_component_errors [OF h, of loader_without_factory "''checker.so''" None]
  show ?thesis
    by (simp add: loader_without_library_def loader_without_factory_def LoadComponent_def
          on_main_thread_def initial_def Logger_Write_def)
qed

section \<open>The fault boundary of \<open>Run\<close>\<close>

lemma Run_calls_Main:
  "m_Instance s = None \<Longrightarrow>
   Run Main self tid argv s =
     (if m_Debugging s then
        (case Main argv (at_Main self tid argv s) of
           (Inl ex, s6) \<Rightarrow> (Throws ex, s6)
         | (Inr res, s6) \<Rightarrow> (Returns res, s6\<lparr>m_Instance := None\<rparr>))
      else
        (case Main argv (at_Main self tid argv s) of
           (Inr res, s6) \<Rightarrow> (Returns res, s6)
         | (Inl NotStdException, s6) \<Rightarrow> (Throws NotStdException, s6)
         | (Inl (StdException kind message), s6) \<Rightarrow>
             (Returns EXIT_FAILURE,
              s6\<lparr>m_Instance := None,
                 logged := logged s6 @ [(LogCritical, ''base'', ''---''),
                                        (LogCritical, ''base'', ''Exception: '' @ kind),
                                        (LogCritical, ''base'', ''Message: '' @ message)]\<rparr>)))"
  by (simp add: Run_def at_Main_def IsDebugging_def Logger_Write_def Let_def
        split: prod.splits sum.splits thrown.splits)

text \<open>
  C3, as stated, fails. In debug mode a \<^verbatim>\<open>std::logic_error\<close> thrown by the entry point
  leaves \<open>Run\<close> with \<^verbatim>\<open>m_Instance\<close> still set. Without debug mode a thrown \<^verbatim>\<open>int\<close> is
  not caught: it leaves \<open>Run\<close>, and no failure code is returned.
\<close>

theorem run_fault_counterexample:
  "fst (Run main_throws_logic_error 1 0 [''icinga2''] debugging)
     = Throws (StdException ''std::logic_error'' ''bad state'')
   \<and> m_Instance (snd (Run main_throws_logic_error 1 0 [''icinga2''] debugging)) = Some 1
   \<and> \<not> m_Debugging (initial ())
   \<and> fst (Run main_throws_int 1 0 [''icinga2''] (initial ())) = Throws NotStdException
   \<and> m_Instance (snd (Run main_throws_int 1 0 [''icinga2''] (initial ()))) = Some 1"
  by (simp add: Run_def main_throws_logic_error_def main_throws_int_def debugging_def
        initial_def IsDebugging_def)

text \<open>
  C3, amended. Let the entry point, called by \<open>Run\<close>, throw \<open>ex\<close> and leave the state
  \<open>s'\<close>. Without debug mode, if \<open>ex\<close> is a \<^verbatim>\<open>std::exception\<close> then \<open>Run\<close> returns
  \<^verbatim>\<open>EXIT_FAILURE\<close>, having released the singleton reference and logged, as critical,
  a separator, the type name and the message of \<open>ex\<close>; if \<open>ex\<close> is of another type it
  leaves \<open>Run\<close> uncaught. In debug mode \<open>ex\<close> leaves \<open>Run\<close> uncaught. Where \<open>ex\<close> leaves
  \<open>Run\<close>, the state is the one the entry point left: \<open>Run\<close> does not release the
  singleton reference.
\<close>

theorem run_fault_boundary:
  assumes "m_Instance s = None"
    and "Main argv (at_Main self tid argv s) = (Inl ex, s')"
  shows "(\<not> m_Debugging s \<longrightarrow>
            (\<forall>kind message. ex = StdException kind message \<longrightarrow>
               Run Main self tid argv s =
                 (Returns EXIT_FAILURE,
                  s'\<lparr>m_Instance := None,
                     logged := logged s' @ [(LogCritical, ''base'', ''---''),
                                            (LogCritical, ''base'', ''Exception: '' @ kind),
                                            (LogCritical, ''base'', ''Message: '' @ message)]\<rparr>)
               \<and> GetInstance (snd (Run Main self tid argv s)) = None)
            \<and> (ex = NotStdException \<longrightarrow> Run Main self tid argv s = (Throws ex, s')))
       \<and> (m_Debugging s \<longrightarrow> Run Main self tid argv s = (Throws ex, s'))
       \<and> m_Instance (at_Main self tid argv s) = Some self"
  using assms
  by (simp add: Run_calls_Main GetInstance_def) (simp add: at_Main_def)

theorem run_fault_boundary_witness:
  "m_Instance (initial ()) = None
   \<and> main_throws_logic_error [''icinga2''] (at_Main 1 0 [''icinga2''] (initial ()))
       = (Inl (StdException ''std::logic_error'' ''bad state''), at_Main 1 0 [''icinga2''] (initial ()))
   \<and> \<not> m_Debugging (initial ())
   \<and> fst (Run main_throws_logic_error 1 0 [''icinga2''] (initial ())) = Returns EXIT_FAILURE
   \<and> m_Instance (snd (Run main_throws_logic_error 1 0 [''icinga2''] (initial ()))) = None
   \<and> logged (snd (Run main_throws_logic_error 1 0 [''icinga2''] (initial ())))
       = [(LogCritical, ''base'', ''---''),
          (LogCritical, ''base'', ''Exception: std::logic_error''),
          (LogCritical, ''base'', ''Message: bad state'')]
   \<and> m_Instance debugging = None
   \<and> m_Debugging debugging
   \<and> Run main_throws_logic_error 1 0 [''icinga2''] debugging
       = (Throws (StdException ''std::logic_error'' ''bad state''), at_Main 1 0 [''icinga2''] debugging)
   \<and> main_throws_int [''icinga2''] (at_Main 1 0 [''icinga2''] (initial ()))
       = (Inl NotStdException, at_Main 1 0 [''icinga2''] (initial ()))
   \<and> Run main_throws_int 1 0 [''icinga2''] (initial ())
       = (Throws NotStdException, at_Main 1 0 [''icinga2''] (initial ()))"
proof -
  have h5: "main_throws_int [''icinga2''] (at_Main 1 0 [''icinga2''] (initial ()))
       = (Inl NotStdException, at_Main 1 0 [''icinga2''] (initial ()))"
    by (simp add: main_throws_int_def)
  have h1: "m_Instance (initial () :: unit process) = None"
    by (simp add: initial_def)
  have h2: "main_throws_logic_error [''icinga2''] (at_Main 1 0 [''icinga2''] (initial ()))
       = (Inl (StdException ''std::logic_error'' ''bad state''), at_Main 1 0 [''icinga2''] (initial ()))"
    by (simp add: main_throws_logic_error_def)
  have h3: "m_Instance debugging = None"
    by (simp add: debugging_def initial_def)
  have h4: "main_throws_logic_error [''icinga2''] (at_Main 1 0 [''icinga2''] debugging)
       = (Inl (StdException ''std::logic_error'' ''bad state''), at_Main 1 0 [''icinga2''] debugging)"
    by (simp add: main_throws_logic_error_def)
  have d: "m_Debugging debugging" "\<not> m_Debugging (initial () :: unit process)"
    by (simp_all add: debugging_def initial_def)
  from h1 h2 h3 h5 d run_fault_boundary [where Main = main_throws_logic_error and self = 1 and tid = 0
      and argv = "[''icinga2'']" and s = "initial ()", OF h1 h2]
    run_fault_boundary [where Main = main_throws_int and self = 1 and tid = 0
      and argv = "[''icinga2'']" and s = "initial ()", OF h1 h5]
    run_fault_boundary [where Main = main_throws_logic_error and self = 1 and tid = 0
      and argv = "[''icinga2'']" and s = debugging, OF h3 h4] show ?thesis
    by (simp add: at_Main_def initial_def)
qed

section \<open>The path of the executable\<close>

lemma search_paths_None:
  "search_paths os dirs argv0 = None \<longleftrightarrow> (\<forall>dir \<in> set dirs. \<not> access_X_OK os (dir @ ''/'' @ argv0))"
  by (simp add: search_paths_def find_None_iff)

lemma search_paths_first:
  assumes "i < length dirs" and "access_X_OK os (dirs ! i @ ''/'' @ argv0)"
    and "\<forall>j < i. \<not> access_X_OK os (dirs ! j @ ''/'' @ argv0)"
  shows "search_paths os dirs argv0 = Some (dirs ! i @ ''/'' @ argv0)"
  using assms unfolding search_paths_def find_Some_iff
  by (intro exI [of _ i]) simp

lemma no_slash_not_absolute: "CHR ''/'' \<notin> set argv0 \<Longrightarrow> take (Suc 0) argv0 \<noteq> ''/''"
  by (cases argv0) auto

lemma GetExePath_unfold:
  assumes "result s = []" and "m_Arguments s = argv0 # rest" and "getcwd os = Inr wd"
  shows "GetExePath os s =
     (if CHR ''/'' \<in> set argv0
      then canonicalized os (if absolute argv0 then argv0 else wd @ ''/'' @ argv0) s
      else case getenv_PATH os of
             None \<Rightarrow> canonicalized os (wd @ ''/'' @ argv0) s
           | Some pathEnv \<Rightarrow>
               (case search_paths os (split CHR '':'' pathEnv) argv0 of
                  None \<Rightarrow> (Throws (RuntimeError ''Could not determine executable path.''), s)
                | Some pathTest \<Rightarrow> canonicalized os pathTest s))"
proof (cases "CHR ''/'' \<in> set argv0")
  case True
  with assms show ?thesis
    by (simp add: GetExePath_def canonicalized_def absolute_def Let_def)
next
  case False
  with assms no_slash_not_absolute [OF False] show ?thesis
    by (simp add: GetExePath_def canonicalized_def Let_def split: option.splits)
qed

text \<open>
  C8, as stated, fails: with \<^verbatim>\<open>PATH\<close> unset and an argument 0 without a separator, no
  directory holds an executable match, and the call does not fail: it returns the
  canonical form of argument 0 under the working directory.
\<close>

theorem exe_path_unset_PATH_counterexample:
  "CHR ''/'' \<notin> set ''icinga2''
   \<and> getenv_PATH os_without_PATH = None
   \<and> \<not> access_X_OK os_without_PATH ''/opt/icinga2''
   \<and> fst (GetExePath os_without_PATH (started_as ''icinga2'')) = Returns ''/opt/icinga2''"
  by (simp add: GetExePath_def os_without_PATH_def started_as_def initial_def Let_def)

text \<open>
  C8, amended. With nothing cached and argument 0 present, \<^verbatim>\<open>GetExePath\<close> first asks for
  the working directory, and a failure of that is a \<^verbatim>\<open>PosixException\<close>. It then chooses
  a path: argument 0 itself when it begins with a separator; argument 0 under the
  working directory when it has a separator elsewhere, or has none and \<^verbatim>\<open>PATH\<close> is unset;
  and when it has none and \<^verbatim>\<open>PATH\<close> is set, \<open>dir/argv0\<close> for the first directory of
  \<^verbatim>\<open>PATH\<close> (split at the colons) where that may be executed, the call failing with a
  \<^verbatim>\<open>runtime_error\<close> when there is no such directory. The chosen path is canonicalized by
  \<^verbatim>\<open>realpath\<close>, whose failure is a \<^verbatim>\<open>PosixException\<close> and whose answer is returned.
\<close>

theorem exe_path_resolution:
  assumes "result s = []" and "m_Arguments s = argv0 # rest"
  shows "(\<forall>errno. getcwd os = Inl errno \<longrightarrow>
            GetExePath os s = (Throws (PosixException ''getcwd failed'' errno), s))
       \<and> (\<forall>wd. getcwd os = Inr wd \<longrightarrow>
            (CHR ''/'' \<in> set argv0 \<longrightarrow>
               GetExePath os s =
                 canonicalized os (if absolute argv0 then argv0 else wd @ ''/'' @ argv0) s)
          \<and> (CHR ''/'' \<notin> set argv0 \<and> getenv_PATH os = None \<longrightarrow>
               GetExePath os s = canonicalized os (wd @ ''/'' @ argv0) s)
          \<and> (\<forall>pathEnv. CHR ''/'' \<notin> set argv0 \<and> getenv_PATH os = Some pathEnv \<longrightarrow>
               ((\<forall>dir \<in> set (split CHR '':'' pathEnv). \<not> access_X_OK os (dir @ ''/'' @ argv0)) \<longrightarrow>
                  GetExePath os s
                    = (Throws (RuntimeError ''Could not determine executable path.''), s))
             \<and> (\<forall>i < length (split CHR '':'' pathEnv).
                  access_X_OK os (split CHR '':'' pathEnv ! i @ ''/'' @ argv0)
                  \<and> (\<forall>j < i. \<not> access_X_OK os (split CHR '':'' pathEnv ! j @ ''/'' @ argv0)) \<longrightarrow>
                  GetExePath os s
                    = canonicalized os (split CHR '':'' pathEnv ! i @ ''/'' @ argv0) s)))
       \<and> (\<forall>p errno. realpath os p = Inl errno \<longrightarrow>
            canonicalized os p s = (Throws (PosixException ''realpath failed'' errno), s))
       \<and> (\<forall>p r. realpath os p = Inr r \<longrightarrow>
            canonicalized os p s = (Returns r, s\<lparr>result := r\<rparr>))"
proof -
  have cwd: "GetExePath os s = (Throws (PosixException ''getcwd failed'' errno), s)"
    if "getcwd os = Inl errno" for errno
    using that assms by (simp add: GetExePath_def)
  have none: "GetExePath os s = (Throws (RuntimeError ''Could not determine executable path.''), s)"
    if "getcwd os = Inr wd" "CHR ''/'' \<notin> set argv0" "getenv_PATH os = Some pathEnv"
      "\<forall>dir \<in> set (split CHR '':'' pathEnv). \<not> access_X_OK os (dir @ ''/'' @ argv0)"
    for wd pathEnv
  proof -
    from that(4) have "search_paths os (split CHR '':'' pathEnv) argv0 = None"
      by (simp only: search_paths_None)
    with that(1-3) show ?thesis
      by (simp add: GetExePath_unfold [OF assms])
  qed
  have first: "GetExePath os s = canonicalized os (split CHR '':'' pathEnv ! i @ ''/'' @ argv0) s"
    if "getcwd os = Inr wd" "CHR ''/'' \<notin> set argv0" "getenv_PATH os = Some pathEnv"
      "i < length (split CHR '':'' pathEnv)"
      "access_X_OK os (split CHR '':'' pathEnv ! i @ ''/'' @ argv0)"
      "\<forall>j < i. \<not> access_X_OK os (split CHR '':'' pathEnv ! j @ ''/'' @ argv0)"
    for wd pathEnv i
    using that(1-3) search_paths_first [OF that(4-6)]
    by (simp add: GetExePath_unfold [OF assms])
  have sep: "GetExePath os s =
      canonicalized os (if absolute argv0 then argv0 else wd @ ''/'' @ argv0) s"
    if "getcwd os = Inr wd" "CHR ''/'' \<in> set argv0" for wd
    using that by (simp add: GetExePath_unfold [OF assms])
  have unset: "GetExePath os s = canonicalized os (wd @ ''/'' @ argv0) s"
    if "getcwd os = Inr wd" "CHR ''/'' \<notin> set argv0" "getenv_PATH os = None" for wd
    using that by (simp add: GetExePath_unfold [OF assms])
  have canon: "(\<forall>p errno. realpath os p = Inl errno \<longrightarrow>
            canonicalized os p s = (Throws (PosixException ''realpath failed'' errno), s))
       \<and> (\<forall>p r. realpath os p = Inr r \<longrightarrow>
            canonicalized os p s = (Returns r, s\<lparr>result := r\<rparr>))"
    by (simp add: canonicalized_def)
  from cwd none first sep unset canon show ?thesis
    by blast
qed


theorem exe_path_resolution_witness:
  "result (started_as ''icinga2'') = []
   \<and> m_Arguments (started_as ''icinga2'') = ''icinga2'' # []
   \<and> getcwd os_with_PATH = Inr ''/home/icinga''
   \<and> CHR ''/'' \<notin> set ''icinga2''
   \<and> getenv_PATH os_with_PATH = Some ''/bin:/usr/sbin''
   \<and> split CHR '':'' ''/bin:/usr/sbin'' = [''/bin'', ''/usr/sbin'']
   \<and> \<not> access_X_OK os_with_PATH (''/bin'' @ ''/'' @ ''icinga2'')
   \<and> access_X_OK os_with_PATH (''/usr/sbin'' @ ''/'' @ ''icinga2'')
   \<and> realpath os_with_PATH ''/usr/sbin/icinga2'' = Inr ''/usr/sbin/icinga2''
   \<and> fst (GetExePath os_with_PATH (started_as ''icinga2'')) = Returns ''/usr/sbin/icinga2''
   \<and> result (started_as ''sbin/icinga2'') = []
   \<and> m_Arguments (started_as ''sbin/icinga2'') = ''sbin/icinga2'' # []
   \<and> CHR ''/'' \<in> set ''sbin/icinga2''
   \<and> fst (GetExePath os_with_PATH (started_as ''sbin/icinga2'')) = Returns ''/home/icinga/sbin/icinga2''
   \<and> getcwd (os_with_PATH\<lparr>getcwd := Inl 13\<rparr>) = Inl 13
   \<and> fst (GetExePath (os_with_PATH\<lparr>getcwd := Inl 13\<rparr>) (started_as ''icinga2''))
       = Throws (PosixException ''getcwd failed'' 13)
   \<and> getenv_PATH (os_with_PATH\<lparr>access_X_OK := (\<lambda>p. False)\<rparr>) = Some ''/bin:/usr/sbin''
   \<and> fst (GetExePath (os_with_PATH\<lparr>access_X_OK := (\<lambda>p. False)\<rparr>) (started_as ''icinga2''))
       = Throws (RuntimeError ''Could not determine executable path.'')
   \<and> getcwd os_without_PATH = Inr ''/opt''
   \<and> getenv_PATH os_without_PATH = None
   \<and> fst (GetExePath os_without_PATH (started_as ''icinga2'')) = Returns ''/opt/icinga2''
   \<and> realpath (os_with_PATH\<lparr>realpath := (\<lambda>p. Inl 2)\<rparr>) ''/usr/sbin/icinga2'' = Inl 2
   \<and> fst (GetExePath (os_with_PATH\<lparr>realpath := (\<lambda>p. Inl 2)\<rparr>) (started_as ''icinga2''))
       = Throws (PosixException ''realpath failed'' 2)"
proof -
  have h1: "result (started_as ''icinga2'') = []"
    by (simp add: started_as_def initial_def)
  have h2: "m_Arguments (started_as ''icinga2'') = ''icinga2'' # []"
    by (simp add: started_as_def initial_def)
  have h3: "result (started_as ''sbin/icinga2'') = []"
    by (simp add: started_as_def initial_def)
  have h4: "m_Arguments (started_as ''sbin/icinga2'') = ''sbin/icinga2'' # []"
    by (simp add: started_as_def initial_def)
  have sp: "split CHR '':'' ''/bin:/usr/sbin'' = [''/bin'', ''/usr/sbin'']"
    by simp
  note a = exe_path_resolution [OF h1 h2, of os_with_PATH]
  note b = exe_path_resolution [OF h3 h4, of os_with_PATH]
  note c = exe_path_resolution [OF h1 h2, of "os_with_PATH\<lparr>getcwd := Inl 13\<rparr>"]
  note d = exe_path_resolution [OF h1 h2, of "os_with_PATH\<lparr>access_X_OK := (\<lambda>p. False)\<rparr>"]
  note e = exe_path_resolution [OF h1 h2, of os_without_PATH]
  note f = exe_path_resolution [OF h1 h2, of "os_with_PATH\<lparr>realpath := (\<lambda>p. Inl 2)\<rparr>"]
  from h1 h2 h3 h4 sp a b c d e f show ?thesis
    by (simp add: os_with_PATH_def os_without_PATH_def canonicalized_def absolute_def GetExePath_def started_as_def
          initial_def search_paths_def Let_def)
qed

lemma absolute_nonempty: "absolute p \<Longrightarrow> p \<noteq> []"
  by (auto simp: absolute_def)

lemma GetExePath_cached: "result s \<noteq> [] \<Longrightarrow> GetExePath os s = (Returns (result s), s)"
  by (simp add: GetExePath_def)

lemma GetExePath_Returns:
  assumes "result s = []" and "GetExePath os s = (Returns p, s')"
  shows "\<exists>x. realpath os x = Inr p \<and> s' = s\<lparr>result := p\<rparr>"
  using assms
  by (auto simp: GetExePath_def Let_def split: list.splits sum.splits option.splits if_splits)

lemma GetExePath_keeps_cache:
  assumes "realpath_absolute os" and "result s = [] \<or> absolute (result s)"
  shows "result (snd (GetExePath os s)) = [] \<or> absolute (result (snd (GetExePath os s)))"
proof (cases "GetExePath os s")
  case (Pair out s')
  show ?thesis
  proof (cases "result s = []")
    case True
    show ?thesis
    proof (cases out)
      case (Returns p)
      with Pair GetExePath_Returns [OF True, of os p s'] assms(1) show ?thesis
        by (auto simp: realpath_absolute_def)
    next
      case (Throws e)
      with Pair True show ?thesis
        by (auto simp: GetExePath_def Let_def split: list.splits sum.splits option.splits if_splits)
    next
      case AssertionFailed
      with Pair True show ?thesis
        by (auto simp: GetExePath_def Let_def split: list.splits sum.splits option.splits if_splits)
    next
      case UndefinedBehaviour
      with Pair True show ?thesis
        by (auto simp: GetExePath_def Let_def split: list.splits sum.splits option.splits if_splits)
    qed
  next
    case False
    with assms(2) show ?thesis
      by (simp add: GetExePath_cached)
  qed
qed

text \<open>
  C9. Let \<^verbatim>\<open>realpath\<close> answer with absolute paths only, as POSIX has it, and let the
  static \<open>result\<close> be empty or absolute, as it is at the start and after every call.
  When \<^verbatim>\<open>GetExePath\<close> returns a path, that path is absolute and is what \<open>result\<close> then
  holds, and every later call returns the same path and leaves the state alone,
  whatever the operating system would answer then: nothing is resolved again.
\<close>

theorem exe_path_idempotent:
  assumes "realpath_absolute os" and "result s = [] \<or> absolute (result s)"
    and "GetExePath os s = (Returns p, s')"
  shows "absolute p \<and> result s' = p
       \<and> (\<forall>os'. GetExePath os' s' = (Returns p, s'))
       \<and> (\<forall>os' os''. GetExePath os'' (snd (GetExePath os' s')) = GetExePath os' s')"
proof -
  have "absolute p \<and> result s' = p"
  proof (cases "result s = []")
    case True
    from GetExePath_Returns [OF True assms(3)]
    obtain x where "realpath os x = Inr p" and "s' = s\<lparr>result := p\<rparr>"
      by blast
    with assms(1) show ?thesis
      by (auto simp: realpath_absolute_def)
  next
    case False
    with assms(2,3) show ?thesis
      by (auto simp: GetExePath_cached)
  qed
  then have abs: "absolute p" and res: "result s' = p"
    by simp_all
  from abs res have "result s' \<noteq> []"
    by (simp add: absolute_nonempty)
  then have "GetExePath os' s' = (Returns p, s')" for os'
    using res by (simp add: GetExePath_cached)
  with abs res show ?thesis
    by simp
qed

theorem exe_path_idempotent_witness:
  "realpath_absolute os_with_PATH
   \<and> (result (started_as ''icinga2'') = [] \<or> absolute (result (started_as ''icinga2'')))
   \<and> GetExePath os_with_PATH (started_as ''icinga2'')
       = (Returns ''/usr/sbin/icinga2'', (started_as ''icinga2'')\<lparr>result := ''/usr/sbin/icinga2''\<rparr>)
   \<and> absolute ''/usr/sbin/icinga2''
   \<and> GetExePath os_without_PATH ((started_as ''icinga2'')\<lparr>result := ''/usr/sbin/icinga2''\<rparr>)
       = (Returns ''/usr/sbin/icinga2'', (started_as ''icinga2'')\<lparr>result := ''/usr/sbin/icinga2''\<rparr>)"
proof -
  have h1: "realpath_absolute os_with_PATH"
    by (simp add: realpath_absolute_def os_with_PATH_def)
  have h2: "result (started_as ''icinga2'') = [] \<or> absolute (result (started_as ''icinga2''))"
    by (simp add: started_as_def initial_def)
  have h3: "GetExePath os_with_PATH (started_as ''icinga2'')
       = (Returns ''/usr/sbin/icinga2'', (started_as ''icinga2'')\<lparr>result := ''/usr/sbin/icinga2''\<rparr>)"
    by (simp add: GetExePath_def os_with_PATH_def started_as_def initial_def search_paths_def
          absolute_def Let_def)
  from h1 h2 h3 exe_path_idempotent [OF h1 h2 h3] show ?thesis
    by simp
qed

section \<open>The event loop\<close>

lemma spec_iterations_append:
  "spec_iterations ([ClearHeldObjectsStep, ProcessTimersStep sleep, CheckShuttingDown False,
        GetSystemTimeStep now, WaitStep (now + 1000000 * sleep) events]
      @ map OnEventDeliveredStep events @ later) = spec_iterations later"
  by simp

lemma loop_body_cases:
  "loop_body co s =
     (if m_ShuttingDown (snd (ProcessTimers co (ClearHeldObjects co s)))
      then ([ClearHeldObjectsStep,
             ProcessTimersStep (fst (ProcessTimers co (ClearHeldObjects co s))),
             CheckShuttingDown True],
            True, snd (ProcessTimers co (ClearHeldObjects co s)))
      else ([ClearHeldObjectsStep,
             ProcessTimersStep (fst (ProcessTimers co (ClearHeldObjects co s))),
             CheckShuttingDown False,
             GetSystemTimeStep (get_system_time co (snd (ProcessTimers co (ClearHeldObjects co s)))),
             WaitStep (get_system_time co (snd (ProcessTimers co (ClearHeldObjects co s)))
                       + 1000000 * fst (ProcessTimers co (ClearHeldObjects co s)))
               (fst (Wait co (get_system_time co (snd (ProcessTimers co (ClearHeldObjects co s)))
                       + 1000000 * fst (ProcessTimers co (ClearHeldObjects co s)))
                      (snd (ProcessTimers co (ClearHeldObjects co s)))))]
            @ map OnEventDeliveredStep
               (fst (Wait co (get_system_time co (snd (ProcessTimers co (ClearHeldObjects co s)))
                       + 1000000 * fst (ProcessTimers co (ClearHeldObjects co s)))
                      (snd (ProcessTimers co (ClearHeldObjects co s))))),
            False,
            fold (OnEventDelivered co)
               (fst (Wait co (get_system_time co (snd (ProcessTimers co (ClearHeldObjects co s)))
                       + 1000000 * fst (ProcessTimers co (ClearHeldObjects co s)))
                      (snd (ProcessTimers co (ClearHeldObjects co s)))))
               (snd (Wait co (get_system_time co (snd (ProcessTimers co (ClearHeldObjects co s)))
                       + 1000000 * fst (ProcessTimers co (ClearHeldObjects co s)))
                      (snd (ProcessTimers co (ClearHeldObjects co s)))))))"
  by (simp add: loop_body_def Let_def split: prod.splits)

lemma loop_body_spec:
  "loop_body co s = (steps, left, s') \<Longrightarrow>
     (left \<longrightarrow> m_ShuttingDown s' \<and> spec_iterations steps)
   \<and> (\<not> left \<longrightarrow> (\<forall>later. spec_iterations (steps @ later) = spec_iterations later))"
  by (auto simp: loop_body_cases split: if_splits)

lemma RunEventLoop_spec:
  "RunEventLoop n co s = Some (steps, s') \<Longrightarrow> spec_iterations steps \<and> m_ShuttingDown s'"
proof (induction n arbitrary: s steps s')
  case 0
  then show ?case by (auto split: if_splits)
next
  case (Suc n)
  show ?case
  proof (cases "m_ShuttingDown s")
    case True
    with Suc.prems show ?thesis by auto
  next
    case False
    obtain st left t where body: "loop_body co s = (st, left, t)"
      by (cases "loop_body co s") auto
    show ?thesis
    proof (cases left)
      case True
      with Suc.prems False body loop_body_spec [OF body] show ?thesis
        by auto
    next
      case nobreak: False
      with Suc.prems False body obtain later where
        rec: "RunEventLoop n co t = Some (later, s')" and steps: "steps = st @ later"
        by (auto split: option.splits)
      from Suc.IH [OF rec] loop_body_spec [OF body] nobreak steps show ?thesis
        by simp
    qed
  qed
qed


text \<open>
  C2. While the flag is unset, an iteration of \<^verbatim>\<open>RunEventLoop\<close> releases the held
  objects, then processes the timers, which gives the seconds to sleep, then tests
  the flag. When the timers have set the flag the loop returns there, with no wait
  and no event dispatched, however many iterations it was allowed. Otherwise it waits
  on the event queue until the deadline, which is that many seconds after the current
  time, calls \<^verbatim>\<open>OnEventDelivered\<close> on every delivered event, first to last, and goes on
  with the next iteration from the state the last callback left. So the steps of every
  run of the loop that ends are the iterations the spec describes, and it ends with
  the flag set.
\<close>

theorem event_loop_iterations:
  "(RunEventLoop n co s = Some (steps, s') \<longrightarrow> spec_iterations steps \<and> m_ShuttingDown s')
   \<and> (m_ShuttingDown s \<longrightarrow> RunEventLoop n co s = Some ([], s))
   \<and> (\<not> m_ShuttingDown s \<longrightarrow>
        (let s1 = ClearHeldObjects co s;
             (sleep, s2) = ProcessTimers co s1
         in (m_ShuttingDown s2 \<longrightarrow>
               RunEventLoop (Suc n) co s
                 = Some ([ClearHeldObjectsStep, ProcessTimersStep sleep, CheckShuttingDown True], s2))
          \<and> (\<not> m_ShuttingDown s2 \<longrightarrow>
               (let now = get_system_time co s2;
                    deadline = now + 1000000 * sleep;
                    (events, s3) = Wait co deadline s2;
                    s4 = fold (OnEventDelivered co) events s3
                in RunEventLoop (Suc n) co s
                     = map_option
                         (\<lambda>(later, t).
                            ([ClearHeldObjectsStep, ProcessTimersStep sleep, CheckShuttingDown False,
                              GetSystemTimeStep now, WaitStep deadline events]
                             @ map OnEventDeliveredStep events @ later, t))
                         (RunEventLoop n co s4)))))"
  (is "?A \<and> ?B \<and> ?C")
proof -
  have finished: ?A
    using RunEventLoop_spec by blast
  have flag_set: ?B
    by (cases n) simp_all
  have unset: ?C
    by (simp add: loop_body_def Let_def split: prod.splits option.splits)
  from finished flag_set unset show ?thesis
    by (intro conjI)
qed

theorem event_loop_iterations_witness:
  "\<not> m_ShuttingDown (initial ())
   \<and> m_ShuttingDown (snd (ProcessTimers timer_shuts_down (ClearHeldObjects timer_shuts_down (initial ()))))
   \<and> RunEventLoop 3 timer_shuts_down (initial ())
       = Some ([ClearHeldObjectsStep, ProcessTimersStep 5, CheckShuttingDown True], Shutdown (initial ()))
   \<and> \<not> m_ShuttingDown (snd (ProcessTimers event_shuts_down (ClearHeldObjects event_shuts_down (initial ()))))
   \<and> RunEventLoop 3 event_shuts_down (initial ())
       = Some ([ClearHeldObjectsStep, ProcessTimersStep 5, CheckShuttingDown False,
                GetSystemTimeStep 7000000, WaitStep 12000000 [1, 2],
                OnEventDeliveredStep 1, OnEventDeliveredStep 2], Shutdown (initial ()))
   \<and> spec_iterations [ClearHeldObjectsStep, ProcessTimersStep 5, CheckShuttingDown False,
                GetSystemTimeStep 7000000, WaitStep 12000000 [1, 2],
                OnEventDeliveredStep 1, OnEventDeliveredStep 2]
   \<and> m_ShuttingDown (Shutdown (initial ()))
   \<and> RunEventLoop 2 event_shuts_down (Shutdown (initial ())) = Some ([], Shutdown (initial ()))"
proof -
  have e: "RunEventLoop 3 event_shuts_down (initial ())
       = Some ([ClearHeldObjectsStep, ProcessTimersStep 5, CheckShuttingDown False,
                GetSystemTimeStep 7000000, WaitStep 12000000 [1, 2],
                OnEventDeliveredStep 1, OnEventDeliveredStep 2], Shutdown (initial ()))"
    by (simp add: numeral_3_eq_3 numeral_2_eq_2 loop_body_def event_shuts_down_def Shutdown_def initial_def)
  note a = event_loop_iterations [of 2 timer_shuts_down "initial ()"]
  note b = event_loop_iterations [of 3 event_shuts_down "initial ()", THEN conjunct1, rule_format, OF e]
  note c = event_loop_iterations [of 2 event_shuts_down "Shutdown (initial ())"]
  note d = event_loop_iterations [of 2 event_shuts_down "initial ()"]
  from a b c d e show ?thesis
    by (simp add: numeral_3_eq_3 numeral_2_eq_2 timer_shuts_down_def event_shuts_down_def Shutdown_def initial_def)
qed

section \<open>Shutting down\<close>

lemma fold_Stop_flag:
  "m_ShuttingDown (fold (\<lambda>i. Stop (snd i)) m s) = m_ShuttingDown s"
  by (induction m arbitrary: s) (simp_all add: Stop_def)

lemma destructor_flag: "m_ShuttingDown (destructor s)"
  by (simp add: destructor_def Let_def fold_Stop_flag)

lemma LoadComponent_flag: "m_ShuttingDown (snd (LoadComponent ld tid path cfg s)) = m_ShuttingDown s"
  by (simp add: LoadComponent_def Logger_Write_def SetConfig_def RegisterComponent_def Start_def
        Let_def split: option.splits)

lemma GetExePath_flag: "m_ShuttingDown (snd (GetExePath os s)) = m_ShuttingDown s"
  by (simp add: GetExePath_def Let_def split: list.splits sum.splits option.splits)

lemma SigIntHandler_flag:
  "m_ShuttingDown (snd (SigIntHandler SIGINT s)) = (m_ShuttingDown s \<or> m_Instance s \<noteq> None)"
  by (auto simp: SigIntHandler_def GetInstance_def Shutdown_def split: option.splits)

lemma perform_keeps_flag: "m_ShuttingDown s \<Longrightarrow> m_ShuttingDown (perform a s)"
proof (cases a)
  case (Pair tid act)
  assume "m_ShuttingDown s"
  with Pair show ?thesis
    by (cases act)
      (simp_all add: Shutdown_def SigIntHandler_flag RegisterComponent_def Start_def
        UnregisterComponent_def Stop_def Logger_Write_def Let_def LoadComponent_flag
        GetExePath_flag at_Main_def destructor_flag split: option.splits)
qed

lemma run_schedule_Cons: "run_schedule (a # sched) s = run_schedule sched (perform a s)"
  by (simp add: run_schedule_def)

lemma run_schedule_keeps_flag: "m_ShuttingDown s \<Longrightarrow> m_ShuttingDown (run_schedule sched s)"
proof (induction sched arbitrary: s)
  case Nil
  then show ?case by (simp add: run_schedule_def)
next
  case (Cons a sched)
  from Cons.prems have "m_ShuttingDown (perform a s)"
    by (rule perform_keeps_flag)
  then show ?case
    unfolding run_schedule_Cons by (rule Cons.IH)
qed

lemma flag_raised_once:
  "flag_raised sched s =
     (if \<not> m_ShuttingDown s \<and> m_ShuttingDown (run_schedule sched s) then 1 else 0)"
proof (induction sched arbitrary: s)
  case Nil
  then show ?case by (simp add: run_schedule_def)
next
  case (Cons a sched)
  show ?case
  proof (cases "m_ShuttingDown (perform a s)")
    case True
    then have "m_ShuttingDown (run_schedule sched (perform a s))"
      by (rule run_schedule_keeps_flag)
    with True Cons.IH [of "perform a s"] show ?thesis
      by (simp add: run_schedule_Cons)
  next
    case False
    with perform_keeps_flag [of s a] have "\<not> m_ShuttingDown s"
      by blast
    with False Cons.IH [of "perform a s"] show ?thesis
      by (simp add: run_schedule_Cons)
  qed
qed

lemma flag_never_lowered: "flag_lowered sched s = 0"
  by (induction sched arbitrary: s) (auto dest: perform_keeps_flag)

lemma Shutdown_in_schedule:
  "(tid, CallShutdown) \<in> set sched \<Longrightarrow> m_ShuttingDown (run_schedule sched s)"
proof (induction sched arbitrary: s)
  case Nil
  then show ?case by simp
next
  case (Cons a sched)
  show ?case
  proof (cases "a = (tid, CallShutdown)")
    case True
    then have "m_ShuttingDown (perform a s)"
      by (simp add: Shutdown_def)
    then show ?thesis
      unfolding run_schedule_Cons by (rule run_schedule_keeps_flag)
  next
    case False
    with Cons.prems have "(tid, CallShutdown) \<in> set sched"
      by simp
    then show ?thesis
      unfolding run_schedule_Cons by (rule Cons.IH)
  qed
qed

lemma Shutdown_repeated:
  "tids \<noteq> [] \<Longrightarrow> run_schedule (map (\<lambda>t. (t, CallShutdown)) tids) s = Shutdown s"
proof (induction tids arbitrary: s)
  case Nil
  then show ?case by simp
next
  case (Cons t tids)
  show ?case
  proof (cases "tids = []")
    case True
    then show ?thesis by (simp add: run_schedule_def)
  next
    case False
    from Cons.IH [OF False, of "Shutdown s"] show ?thesis
      by (simp add: run_schedule_Cons) (simp add: Shutdown_def)
  qed
qed

text \<open>
  The map keeps its keys strictly increasing through every schedule, as it has them at
  the start.
\<close>

lemma perform_keeps_map_ok: "map_ok (m_Components s) \<Longrightarrow> map_ok (m_Components (perform a s))"
proof (cases a)
  case (Pair tid act)
  assume ok: "map_ok (m_Components s)"
  show ?thesis
  proof (cases act)
    case CallShutdown
    with Pair ok show ?thesis by (simp add: Shutdown_def)
  next
    case CallSigIntHandler
    with Pair ok show ?thesis
      by (simp add: SigIntHandler_def Shutdown_def split: option.splits)
  next
    case (CallRegisterComponent c)
    with Pair ok show ?thesis
      by (simp add: RegisterComponent_fields map_ok_assign)
  next
    case (CallUnregisterComponent c)
    with Pair ok show ?thesis
      by (simp add: UnregisterComponent_fields map_ok_erase)
  next
    case (CallLoadComponent ld path cfg)
    with Pair ok show ?thesis
      by (simp add: LoadComponent_def RegisterComponent_fields SetConfig_def Logger_Write_def
            Let_def map_ok_assign split: option.splits)
  next
    case (CallGetExePath os)
    with Pair ok show ?thesis
      by (simp add: GetExePath_def Let_def split: list.splits sum.splits option.splits)
  next
    case (RunAssignsInstance self argv)
    with Pair ok show ?thesis by (simp add: at_Main_def)
  next
    case RunResetsInstance
    with Pair ok show ?thesis by simp
  next
    case CallDestructor
    with Pair show ?thesis by (simp add: destructor_def Let_def map_ok_def)
  next
    case (UserCode f)
    with Pair ok show ?thesis by simp
  qed
qed

lemma run_schedule_keeps_map_ok: "map_ok (m_Components (run_schedule sched (initial w)))"
proof -
  have "map_ok (m_Components s) \<Longrightarrow> map_ok (m_Components (run_schedule sched s))" for s :: "'a process"
  proof (induction sched arbitrary: s)
    case Nil
    then show ?case by (simp add: run_schedule_def)
  next
    case (Cons a sched)
    from Cons.prems have "map_ok (m_Components (perform a s))"
      by (rule perform_keeps_map_ok)
    then show ?case
      unfolding run_schedule_Cons by (rule Cons.IH)
  qed
  moreover have "map_ok (m_Components (initial w))"
    by (simp add: initial_def map_ok_def)
  ultimately show ?thesis .
qed

text \<open>
  C1. Calls are taken to take effect one after another, in any order and from any
  threads. Once the flag is set it stays set through every schedule, and
  \<^verbatim>\<open>GetInstance\<close> returns nothing after it; in every schedule, from every state, the flag
  goes from unset to set at most once and never from set to unset. A schedule in which
  some thread calls \<open>Shutdown\<close> ends with the flag set, having raised it exactly once if
  it was unset before; and any number of \<open>Shutdown\<close> calls, from whatever threads, leave
  the state that one call leaves.
\<close>

theorem shutdown_monotonic:
  "(m_ShuttingDown s \<longrightarrow>
      m_ShuttingDown (run_schedule sched s) \<and> GetInstance (run_schedule sched s) = None)
   \<and> flag_raised sched s \<le> 1
   \<and> flag_lowered sched s = 0
   \<and> ((tid, CallShutdown) \<in> set sched \<longrightarrow>
        m_ShuttingDown (run_schedule sched s)
        \<and> GetInstance (run_schedule sched s) = None
        \<and> (\<not> m_ShuttingDown s \<longrightarrow> flag_raised sched s = 1))
   \<and> (tids \<noteq> [] \<longrightarrow> run_schedule (map (\<lambda>t. (t, CallShutdown)) tids) s = Shutdown s)
   \<and> GetInstance (Shutdown s) = None"
  by (simp add: run_schedule_keeps_flag flag_raised_once flag_never_lowered Shutdown_in_schedule
        Shutdown_repeated GetInstance_def) (simp add: Shutdown_def)

theorem shutdown_monotonic_witness:
  "(3, CallShutdown) \<in> set four_threads
   \<and> \<not> m_ShuttingDown running
   \<and> GetInstance running = Some 7
   \<and> m_ShuttingDown (run_schedule four_threads running)
   \<and> GetInstance (run_schedule four_threads running) = None
   \<and> flag_raised four_threads running = 1
   \<and> m_ShuttingDown (Shutdown running)
   \<and> GetInstance (run_schedule four_threads (Shutdown running)) = None
   \<and> [1, 2, 3] \<noteq> ([] :: nat list)
   \<and> run_schedule (map (\<lambda>t. (t, CallShutdown)) [1, 2, 3]) running = Shutdown running"
proof -
  have h: "(3, CallShutdown) \<in> set four_threads"
    by (simp add: four_threads_def)
  have u: "\<not> m_ShuttingDown running"
    by (simp add: running_def initial_def)
  have g: "GetInstance running = Some 7"
    by (simp add: running_def initial_def GetInstance_def)
  have d: "m_ShuttingDown (Shutdown running)"
    by (simp add: Shutdown_def)
  note a = shutdown_monotonic [of running four_threads 3 "[1, 2, 3]"]
  note b = shutdown_monotonic [of "Shutdown running" four_threads 3 "[1, 2, 3]"]
  from h u g d a b show ?thesis
    by simp
qed

end
